theory Spec2Isabelle
  imports Main "HOL-Library.Sublist"
begin

section \<open>JavaScript values\<close>

text \<open>
  A JavaScript string is a sequence of UTF-16 code units. The model uses HOL's
  \<^typ>\<open>string\<close>, whose characters are 8 bits wide, and reads a character as the code
  unit of the same number: it covers the strings over U+0000 .. U+00FF.
\<close>

text \<open>\<^verbatim>\<open>if (text)\<close>: the empty string is falsy, every other string is truthy.\<close>

definition truthy :: "string \<Rightarrow> bool" where
  "truthy s = (s \<noteq> [])"

text \<open>An optional string (\<^verbatim>\<open>string | undefined\<close>): \<^verbatim>\<open>undefined\<close> is falsy too.\<close>

fun truthy_opt :: "string option \<Rightarrow> bool" where
  "truthy_opt None = False"
| "truthy_opt (Some s) = truthy s"

text \<open>The white space and line terminators of ECMAScript that lie below U+0100.\<close>

definition isWhiteSpace :: "char \<Rightarrow> bool" where
  "isWhiteSpace c = ((of_char c :: nat) \<in> {9, 10, 11, 12, 13, 32, 160})"

definition trim :: "string \<Rightarrow> string" where
  "trim s = rev (dropWhile isWhiteSpace (rev (dropWhile isWhiteSpace s)))"

text \<open>
  \<^verbatim>\<open>String.prototype.toLowerCase\<close> below U+0100: the letters A .. Z and the
  Latin-1 capitals U+00C0 .. U+00DE (without the multiplication sign U+00D7) move up by 32.
\<close>

definition toLowerChar :: "char \<Rightarrow> char" where
  "toLowerChar c =
     (let n = (of_char c :: nat)
      in if (65 \<le> n \<and> n \<le> 90) \<or> (192 \<le> n \<and> n \<le> 214) \<or> (216 \<le> n \<and> n \<le> 222)
         then char_of (n + 32) else c)"

definition toLowerCase :: "string \<Rightarrow> string" where
  "toLowerCase s = map toLowerChar s"

text \<open>\<^verbatim>\<open>s.includes(q)\<close>: \<open>q\<close> occurs in \<open>s\<close> as a contiguous run.\<close>

fun js_includes :: "string \<Rightarrow> string \<Rightarrow> bool" where
  "js_includes [] q = (q = [])"
| "js_includes (c # s) q = (prefix q (c # s) \<or> js_includes s q)"

text \<open>\<^verbatim>\<open>Number.prototype.toString\<close> on a non-negative integer: its decimal digits.\<close>

definition digit :: "nat \<Rightarrow> char" where
  "digit d = ''0123456789'' ! d"

function toString :: "nat \<Rightarrow> string" where
  "toString n = (if n < 10 then [digit n] else toString (n div 10) @ [digit (n mod 10)])"
  by pat_completeness auto
termination
  by (relation "measure (\<lambda>n. n)") auto

declare toString.simps [simp del]

datatype error = ProviderError | TypeError

section \<open>types.ts\<close>

datatype Language = ENGLISH | SPANISH | FRENCH | MANDARIN | ARABIC | URDU | HINDI

datatype role = User | Model

text \<open>
  Several interfaces of \<^verbatim>\<open>types.ts\<close> have a field \<^verbatim>\<open>id\<close> or \<^verbatim>\<open>title\<close>, and
  \<^verbatim>\<open>text\<close> is a keyword here; the records prefix such a field with the name of its
  interface.
\<close>

record Message =
  msg_id :: string
  role :: role
  msg_text :: string
  timestamp :: nat

section \<open>The chat turn\<close>

subsection \<open>\<^verbatim>\<open>streamChatResponse\<close>\<close>

text \<open>
  What the provider's stream yields, one event for each step of the \<^verbatim>\<open>for await\<close>
  loop: a chunk, whose \<^verbatim>\<open>text\<close> is a string or \<^verbatim>\<open>undefined\<close>, or a rejection. A
  rejection of \<^verbatim>\<open>sendMessageStream\<close> itself is a stream that starts with
  \<open>StreamError\<close>.
\<close>

datatype stream_event = Chunk "string option" | StreamError

text \<open>
  The loop of \<^verbatim>\<open>streamChatResponse\<close>. The callback changes variables of the
  caller; \<open>'s\<close> is the type of what it can change, threaded through the loop. The
  result is the returned \<^verbatim>\<open>fullText\<close>, or the error thrown, with the caller's
  variables as the callbacks so far have left them.
\<close>

fun streamLoop ::
  "(string \<Rightarrow> 's \<Rightarrow> 's) \<Rightarrow> stream_event list \<Rightarrow> string \<Rightarrow> 's \<Rightarrow> (error + string) \<times> 's" where
  "streamLoop onChunk [] fullText s = (Inr fullText, s)"
| "streamLoop onChunk (StreamError # rest) fullText s = (Inl ProviderError, s)"
| "streamLoop onChunk (Chunk t # rest) fullText s =
     (if truthy_opt t
      then streamLoop onChunk rest (fullText @ the t) (onChunk (the t) s)
      else streamLoop onChunk rest fullText s)"

text \<open>
  \<open>result\<close> is the stream that \<^verbatim>\<open>chat.sendMessageStream\<close> answers the request with
  (history, new message and system instruction go to the provider and play no part in
  the loop).
\<close>

definition streamChatResponse ::
  "stream_event list \<Rightarrow> (string \<Rightarrow> 's \<Rightarrow> 's) \<Rightarrow> 's \<Rightarrow> (error + string) \<times> 's" where
  "streamChatResponse result onChunk s = streamLoop onChunk result [] s"

subsection \<open>\<^verbatim>\<open>ChatView\<close> and \<^verbatim>\<open>handleSend\<close>\<close>

text \<open>
  The state of \<^verbatim>\<open>ChatView\<close>, and \<open>spoken\<close>: the utterances (text and language tag)
  handed to the speech synthesis so far.
\<close>

record ChatView =
  messages :: "Message list"
  input :: string
  isTyping :: bool
  isVoiceMode :: bool
  spoken :: "(string \<times> string) list"

text \<open>
  What \<^verbatim>\<open>handleSend\<close> reads from outside the component: \<open>clock k\<close> is the value of
  the \<open>k\<close>-th call of \<^verbatim>\<open>Date.now()\<close>, \<open>hasSpeechSynthesis\<close> is
  \<^verbatim>\<open>'speechSynthesis' in window\<close>, \<open>language\<close> is \<^verbatim>\<open>settings.language\<close>.
\<close>

record send_env =
  clock :: "nat \<Rightarrow> nat"
  hasSpeechSynthesis :: bool
  language :: Language

definition userMsg :: "send_env \<Rightarrow> ChatView \<Rightarrow> Message" where
  "userMsg e st =
     \<lparr>msg_id = toString (clock e 0), role = User, msg_text = input st, timestamp = clock e 1\<rparr>"

definition aiMsgId :: "send_env \<Rightarrow> string" where
  "aiMsgId e = toString (clock e 2 + 1)"

definition placeholder :: "send_env \<Rightarrow> Message" where
  "placeholder e = \<lparr>msg_id = aiMsgId e, role = Model, msg_text = [], timestamp = clock e 3\<rparr>"

text \<open>
  The callback that \<^verbatim>\<open>handleSend\<close> passes: it changes the local \<^verbatim>\<open>fullText\<close>
  and the messages.
\<close>

definition setText :: "string \<Rightarrow> string \<Rightarrow> Message \<Rightarrow> Message" where
  "setText i t m = (if msg_id m = i then m\<lparr>msg_text := t\<rparr> else m)"

definition onChunk :: "string \<Rightarrow> string \<Rightarrow> string \<times> Message list \<Rightarrow> string \<times> Message list" where
  "onChunk i chunk s =
     (let fullText = fst s @ chunk
      in (fullText, map (setText i fullText) (snd s)))"

definition apology :: string where
  "apology = ''I'' @ [CHR 0x27] @ ''m having trouble connecting. Please try again.''"

definition langMap :: "Language \<Rightarrow> string" where
  "langMap l =
     (case l of SPANISH \<Rightarrow> ''es-ES'' | FRENCH \<Rightarrow> ''fr-FR'' | MANDARIN \<Rightarrow> ''zh-CN''
      | HINDI \<Rightarrow> ''hi-IN'' | _ \<Rightarrow> ''en-US'')"

text \<open>The state once the synchronous part of \<^verbatim>\<open>handleSend\<close> has run.\<close>

definition sending :: "send_env \<Rightarrow> ChatView \<Rightarrow> ChatView" where
  "sending e st =
     st\<lparr>messages := messages st @ [userMsg e st] @ [placeholder e], input := [],
        isTyping := True\<rparr>"

text \<open>
  The whole turn. \<open>result\<close> is the provider's stream. Voice mode is the value that
  the closure of \<^verbatim>\<open>handleSend\<close> saw when the turn began.
\<close>

definition handleSend :: "send_env \<Rightarrow> stream_event list \<Rightarrow> ChatView \<Rightarrow> ChatView" where
  "handleSend e result st =
     (if \<not> truthy (trim (input st)) then st
      else
        let st1 = sending e st;
            (r, fullText, msgs) = streamChatResponse result (onChunk (aiMsgId e)) ([], messages st1)
        in case r of
             Inr _ \<Rightarrow>
               st1\<lparr>messages := msgs,
                   spoken := (if isVoiceMode st \<and> hasSpeechSynthesis e
                              then spoken st @ [(fullText, langMap (language e))]
                              else spoken st),
                   isTyping := False\<rparr>
           | Inl _ \<Rightarrow>
               st1\<lparr>messages := map (setText (aiMsgId e) apology) msgs, isTyping := False\<rparr>)"

text \<open>
  The fragments that a stream delivers to the callback, in order of arrival, up to the
  end of the stream or its first error.
\<close>

fun delivered :: "stream_event list \<Rightarrow> string list" where
  "delivered [] = []"
| "delivered (StreamError # rest) = []"
| "delivered (Chunk t # rest) = (if truthy_opt t then the t # delivered rest else delivered rest)"

section \<open>The flashcards\<close>

text \<open>The field \<^verbatim>\<open>back\<close> is \<open>back_side\<close> here, \<open>back\<close> being a keyword.\<close>

record Flashcard =
  front :: string
  back_side :: string
  imageKeyword :: "string option"
  generatedImage :: "string option"

subsection \<open>The index arithmetic\<close>

text \<open>
  The numbers that the index arithmetic of \<^verbatim>\<open>handleNext\<close> and \<^verbatim>\<open>handlePrev\<close> can
  yield: integers, and \<^verbatim>\<open>NaN\<close> from a remainder by zero. \<^verbatim>\<open>%\<close> is the truncated
  remainder, which has the sign of the dividend.
\<close>

datatype number = Num int | NaN

fun num_add :: "number \<Rightarrow> int \<Rightarrow> number" where
  "num_add (Num a) b = Num (a + b)"
| "num_add NaN b = NaN"

fun num_rem :: "number \<Rightarrow> int \<Rightarrow> number" where
  "num_rem (Num a) b = (if b = 0 then NaN else Num (sgn a * (\<bar>a\<bar> mod \<bar>b\<bar>)))"
| "num_rem NaN b = NaN"

text \<open>\<^verbatim>\<open>xs[i]\<close>: \<^verbatim>\<open>undefined\<close> unless \<open>i\<close> is an index of the array.\<close>

fun at_index :: "'a list \<Rightarrow> number \<Rightarrow> 'a option" where
  "at_index xs (Num i) = (if 0 \<le> i \<and> i < int (length xs) then Some (xs ! nat i) else None)"
| "at_index xs NaN = None"

subsection \<open>\<^verbatim>\<open>FlashcardView\<close>\<close>

text \<open>
  The effect that loads an illustration copies the array of cards but writes into the
  card object itself, which the copy shares with the array it was copied from. So the
  card objects live in a heap: a reference is a position in \<open>heap\<close>, and an array of
  cards is a list of references. An illustration request in flight keeps what its
  closure captured when the effect ran: the array, the index and the keyword sent.
\<close>

record fetch =
  fetch_cards :: "nat list"
  fetch_index :: number
  fetch_keyword :: string

text \<open>
  The state of \<^verbatim>\<open>FlashcardView\<close>, with the heap, the illustration requests in
  flight, and the alerts shown so far.
\<close>

record FlashcardView =
  heap :: "Flashcard list"
  topic :: string
  cards :: "nat list"
  currentIndex :: number
  isFlipped :: bool
  isLoading :: bool
  pending :: "fetch list"
  alerts :: "string list"

definition flashInit :: "string \<Rightarrow> FlashcardView" where
  "flashInit t =
     \<lparr>heap = [], topic = t, cards = [], currentIndex = Num 0, isFlipped = False,
       isLoading = False, pending = [], alerts = []\<rparr>"

text \<open>
  The effect with the dependencies \<^verbatim>\<open>[currentIndex, cards]\<close>: it sends a request for
  the card at the current index if that card has no image yet and has a keyword.
\<close>

definition loadImg :: "FlashcardView \<Rightarrow> FlashcardView" where
  "loadImg st =
     (case at_index (cards st) (currentIndex st) of
        None \<Rightarrow> st
      | Some r \<Rightarrow>
          let card = heap st ! r
          in if \<not> truthy_opt (generatedImage card) \<and> truthy_opt (imageKeyword card)
             then st\<lparr>pending := pending st @
                        [\<lparr>fetch_cards = cards st, fetch_index = currentIndex st,
                          fetch_keyword = the (imageKeyword card)\<rparr>]\<rparr>
             else st)"

definition imageEffect :: "FlashcardView \<Rightarrow> FlashcardView" where
  "imageEffect st = (if length (cards st) > 0 then loadImg st else st)"

text \<open>
  The rest of \<^verbatim>\<open>loadImg\<close>, after the \<^verbatim>\<open>await\<close>: the request at position \<open>k\<close> of
  those in flight completes with \<open>imgData\<close>, the data URI or \<^verbatim>\<open>undefined\<close>. The
  write goes through the array and the index that the closure captured. \<^verbatim>\<open>setCards\<close>
  gets a new array, so the effect runs again.
\<close>

definition resolveImg :: "nat \<Rightarrow> string option \<Rightarrow> FlashcardView \<Rightarrow> FlashcardView" where
  "resolveImg k imgData st =
     (if k < length (pending st)
      then
        let f = pending st ! k;
            st1 = st\<lparr>pending := take k (pending st) @ drop (Suc k) (pending st)\<rparr>
        in if truthy_opt imgData
           then case at_index (fetch_cards f) (fetch_index f) of
                  None \<Rightarrow> st1
                | Some r \<Rightarrow>
                    imageEffect
                      (st1\<lparr>heap := (heap st)[r := (heap st ! r)\<lparr>generatedImage := imgData\<rparr>],
                           cards := fetch_cards f\<rparr>)
           else st1
      else st)"

text \<open>
  \<^verbatim>\<open>handleGenerate\<close>, with the outcome of \<^verbatim>\<open>generateFlashcards\<close> as \<open>result\<close>. The
  cards parsed from the response are new objects.
\<close>

definition handleGenerate :: "error + Flashcard list \<Rightarrow> FlashcardView \<Rightarrow> FlashcardView" where
  "handleGenerate result st =
     (if \<not> truthy (topic st) then st
      else case result of
             Inr newCards \<Rightarrow>
               imageEffect
                 (st\<lparr>heap := heap st @ newCards,
                     cards := [length (heap st) ..< length (heap st) + length newCards],
                     currentIndex := Num 0, isFlipped := False, isLoading := False\<rparr>)
           | Inl _ \<Rightarrow> st\<lparr>alerts := alerts st @ [''Failed to generate cards.''], isLoading := False\<rparr>)"

definition handleNext :: "FlashcardView \<Rightarrow> FlashcardView" where
  "handleNext st =
     st\<lparr>isFlipped := False,
        currentIndex := num_rem (num_add (currentIndex st) 1) (int (length (cards st)))\<rparr>"

definition handlePrev :: "FlashcardView \<Rightarrow> FlashcardView" where
  "handlePrev st =
     st\<lparr>isFlipped := False,
        currentIndex :=
          num_rem (num_add (num_add (currentIndex st) (- 1)) (int (length (cards st))))
            (int (length (cards st)))\<rparr>"

text \<open>
  What can happen to the view: the provider answers a generation request, a click on
  Next or on Previous, which the view shows while it has cards, and an illustration
  request completes. After a click the effect runs if the index has changed.
\<close>

datatype flash_event =
  Generate "error + Flashcard list" | NextCard | PrevCard | Resolve nat "string option"

definition navigated :: "FlashcardView \<Rightarrow> FlashcardView \<Rightarrow> FlashcardView" where
  "navigated old new = (if currentIndex new = currentIndex old then new else imageEffect new)"

fun flash_step :: "flash_event \<Rightarrow> FlashcardView \<Rightarrow> FlashcardView" where
  "flash_step (Generate result) st = handleGenerate result st"
| "flash_step NextCard st = (if cards st = [] then st else navigated st (handleNext st))"
| "flash_step PrevCard st = (if cards st = [] then st else navigated st (handlePrev st))"
| "flash_step (Resolve k imgData) st = resolveImg k imgData st"

definition flash_run :: "flash_event list \<Rightarrow> FlashcardView \<Rightarrow> FlashcardView" where
  "flash_run evs st = fold flash_step evs st"

text \<open>The image of the card that the view shows at position \<open>i\<close>.\<close>

definition imageAt :: "FlashcardView \<Rightarrow> nat \<Rightarrow> string option" where
  "imageAt st i = generatedImage (heap st ! (cards st ! i))"

text \<open>Two cards with a keyword and no image, as the provider returns them.\<close>

definition twoCards :: "Flashcard list" where
  "twoCards =
     [\<lparr>front = ''Cell'', back_side = ''Unit of life'', imageKeyword = Some ''cell'',
        generatedImage = None\<rparr>,
      \<lparr>front = ''Nucleus'', back_side = ''Holds the DNA'', imageKeyword = Some ''nucleus'',
        generatedImage = None\<rparr>]"

section \<open>The quiz\<close>

record QuizQuestion =
  question :: string
  options :: "string list"
  correctAnswerIndex :: int
  explanation :: string

text \<open>
  The state of \<^verbatim>\<open>QuizView\<close>, and \<open>alerts\<close>: the messages shown with
  \<^verbatim>\<open>alert\<close> so far. \<open>currentIndex\<close> starts at 0 and only ever grows by one, so it is a
  natural number; an answer index and \<^verbatim>\<open>correctAnswerIndex\<close>, which comes from the
  provider, are integers. \<^verbatim>\<open>null\<close> is \<open>None\<close>.
\<close>

record QuizView =
  topic :: string
  requirements :: string
  questions :: "QuizQuestion list"
  currentIndex :: nat
  score :: nat
  selectedAnswer :: "int option"
  showResult :: bool
  isLoading :: bool
  alerts :: "string list"

text \<open>
  \<^verbatim>\<open>handleStart\<close>, with the outcome of \<^verbatim>\<open>generateQuiz\<close> as \<open>result\<close>: the
  questions, or an error thrown.
\<close>

definition handleStart :: "error + QuizQuestion list \<Rightarrow> QuizView \<Rightarrow> QuizView" where
  "handleStart result st =
     (if \<not> truthy (topic st) then st
      else case result of
             Inr qs \<Rightarrow>
               st\<lparr>questions := qs, currentIndex := 0, score := 0, selectedAnswer := None,
                  showResult := False, isLoading := False\<rparr>
           | Inl _ \<Rightarrow>
               st\<lparr>alerts := alerts st @ [''Quiz generation failed.''], isLoading := False\<rparr>)"

text \<open>
  \<^verbatim>\<open>handleAnswer\<close>. Reading \<^verbatim>\<open>correctAnswerIndex\<close> of a question that is not there
  throws a \<^verbatim>\<open>TypeError\<close>; the view cannot render such a state either.
\<close>

definition handleAnswer :: "int \<Rightarrow> QuizView \<Rightarrow> error + QuizView" where
  "handleAnswer index st =
     (if selectedAnswer st \<noteq> None then Inr st
      else if currentIndex st < length (questions st)
      then if index = correctAnswerIndex (questions st ! currentIndex st)
           then Inr (st\<lparr>selectedAnswer := Some index, score := score st + 1\<rparr>)
           else Inr (st\<lparr>selectedAnswer := Some index\<rparr>)
      else Inl TypeError)"

definition nextQuestion :: "QuizView \<Rightarrow> QuizView" where
  "nextQuestion st =
     (if int (currentIndex st) < int (length (questions st)) - 1
      then st\<lparr>currentIndex := currentIndex st + 1, selectedAnswer := None\<rparr>
      else st\<lparr>showResult := True\<rparr>)"

text \<open>
  What \<^verbatim>\<open>QuizView\<close> renders: the form that starts a quiz, the result with the score
  and the number of questions, or the current question with the score so far.
\<close>

datatype quiz_screen = StartForm | Result nat nat | Question nat nat

definition quizScreen :: "QuizView \<Rightarrow> quiz_screen" where
  "quizScreen st =
     (if questions st = [] \<or> showResult st
      then if showResult st then Result (score st) (length (questions st)) else StartForm
      else Question (currentIndex st) (score st))"

text \<open>The clicks on a question screen, and a sequence of them; an error ends it.\<close>

datatype quiz_event = Answer int | Next

fun quiz_step :: "quiz_event \<Rightarrow> QuizView \<Rightarrow> error + QuizView" where
  "quiz_step (Answer index) st = handleAnswer index st"
| "quiz_step Next st = Inr (nextQuestion st)"

fun quiz_run :: "quiz_event list \<Rightarrow> QuizView \<Rightarrow> error + QuizView" where
  "quiz_run [] st = Inr st"
| "quiz_run (ev # evs) st =
     (case quiz_step ev st of Inl err \<Rightarrow> Inl err | Inr st' \<Rightarrow> quiz_run evs st')"

text \<open>
  A full run: for each question in turn a first answer, any number of further clicks on
  answers, and then the button that goes to the next question or finishes.
\<close>

definition fullRun :: "(int \<times> int list) list \<Rightarrow> quiz_event list" where
  "fullRun clicks = concat (map (\<lambda>(first, others). Answer first # map Answer others @ [Next]) clicks)"

text \<open>The number of questions whose first answer is the correct one.\<close>

definition correctFirst :: "QuizQuestion list \<Rightarrow> (int \<times> int list) list \<Rightarrow> nat" where
  "correctFirst qs clicks =
     length (filter (\<lambda>(q, first, others). first = correctAnswerIndex q) (zip qs clicks))"

section \<open>The library\<close>

record Book =
  book_id :: string
  title :: string
  author :: string
  coverColor :: string
  summary :: string
  content :: string

subsection \<open>\<^verbatim>\<open>findExternalBookResource\<close>\<close>

text \<open>
  What the function reads of the provider's response: the grounding chunks of the first
  candidate, each with the \<^verbatim>\<open>uri\<close> and \<^verbatim>\<open>title\<close> of its \<^verbatim>\<open>web\<close> part, and the
  text. Every one of them may be undefined.
\<close>

record web_source =
  uri :: "string option"
  web_title :: "string option"

record grounded_response =
  groundingChunks :: "web_source option list option"
  response_text :: "string option"

record resource =
  found :: bool
  res_title :: string
  res_link :: "string option"
  res_description :: string

text \<open>The loop over the chunks: the first one whose \<^verbatim>\<open>web.uri\<close> is truthy.\<close>

fun firstLink :: "web_source option list \<Rightarrow> (string \<times> string option) option" where
  "firstLink [] = None"
| "firstLink (None # chunks) = firstLink chunks"
| "firstLink (Some w # chunks) =
     (if truthy_opt (uri w) then Some (the (uri w), web_title w) else firstLink chunks)"

definition findExternalBookResource :: "grounded_response \<Rightarrow> string \<Rightarrow> resource" where
  "findExternalBookResource response query =
     (let hit = (case groundingChunks response of None \<Rightarrow> None | Some chunks \<Rightarrow> firstLink chunks);
          link = map_option fst hit;
          title = (case hit of None \<Rightarrow> None | Some (u, t) \<Rightarrow> t)
      in \<lparr>found = (link \<noteq> None),
          res_title = (if truthy_opt title then the title else query),
          res_link = link,
          res_description =
            (if truthy_opt (response_text response) then the (response_text response)
             else ''No description available.'')\<rparr>)"

subsection \<open>\<^verbatim>\<open>LibraryView\<close>\<close>

record external_link =
  link_title :: string
  link :: "string option"
  description :: string

text \<open>
  The state of \<^verbatim>\<open>LibraryView\<close>, and \<open>externalCalls\<close>: the queries that
  \<^verbatim>\<open>findExternalBookResource\<close> has been called with so far.
\<close>

record LibraryView =
  searchQuery :: string
  books :: "Book list"
  searching :: bool
  externalLink :: "external_link option"
  externalCalls :: "string list"

definition seedBooks :: "Book list" where
  "seedBooks =
     [\<lparr>book_id = ''1'', title = ''Physics I'', author = ''OpenStax'', coverColor = ''bg-blue-500'',
        summary = ''Mechanics, Waves, and Thermodynamics.'', content = ''Sample content...''\<rparr>,
      \<lparr>book_id = ''2'', title = ''World History'', author = ''CrashCourse'',
        coverColor = ''bg-amber-600'', summary = ''From ancient civilizations to modern times.'',
        content = ''Sample content...''\<rparr>]"

text \<open>
  \<^verbatim>\<open>handleSearch\<close>. \<open>response\<close> is what the provider answers if it is asked: a
  response, or an error thrown, which the empty \<^verbatim>\<open>catch\<close> swallows.
\<close>

definition handleSearch :: "error + grounded_response \<Rightarrow> LibraryView \<Rightarrow> LibraryView" where
  "handleSearch response st =
     (let st0 = st\<lparr>externalLink := None\<rparr>;
          localResults =
            filter (\<lambda>b. js_includes (toLowerCase (title b)) (toLowerCase (searchQuery st))) (books st)
      in if length localResults = 0 \<and> length (searchQuery st) > 3
         then
           let st1 = st0\<lparr>searching := True, externalCalls := externalCalls st @ [searchQuery st]\<rparr>
           in case response of
                Inr r \<Rightarrow>
                  (let res = findExternalBookResource r (searchQuery st)
                   in if found res
                      then st1\<lparr>externalLink :=
                                 Some \<lparr>link_title = res_title res, link = res_link res,
                                       description = res_description res\<rparr>,
                               searching := False\<rparr>
                      else st1\<lparr>searching := False\<rparr>)
              | Inl _ \<Rightarrow> st1\<lparr>searching := False\<rparr>
         else st0)"

definition filteredBooks :: "LibraryView \<Rightarrow> Book list" where
  "filteredBooks st =
     filter (\<lambda>b. js_includes (toLowerCase (title b)) (toLowerCase (searchQuery st))) (books st)"

section \<open>The settings and the owner mode\<close>

record User =
  name :: string
  email :: string
  isLoggedIn :: bool

text \<open>What a handler asks of the browser: a dialog or a sound.\<close>

datatype browser_call = Prompt string | Alert string | PlayAudio string

text \<open>\<^verbatim>\<open>onToggleAdmin\<close>, as \<^verbatim>\<open>App\<close> passes it: the new value of \<^verbatim>\<open>isAdminMode\<close>.\<close>

definition onToggleAdmin :: "bool \<Rightarrow> bool" where
  "onToggleAdmin isAdminMode = (\<not> isAdminMode)"

text \<open>
  \<^verbatim>\<open>handleAdminToggle\<close>. \<open>answer\<close> is what \<^verbatim>\<open>prompt\<close> returns if it is called: the
  string typed, or \<^verbatim>\<open>null\<close> when the dialog is cancelled. The result is the new value
  of \<^verbatim>\<open>isAdminMode\<close> and the dialogs shown.
\<close>

definition handleAdminToggle :: "string option \<Rightarrow> bool \<Rightarrow> bool \<times> browser_call list" where
  "handleAdminToggle answer isAdminMode =
     (if isAdminMode then (onToggleAdmin isAdminMode, [])
      else
        let pwd = answer
        in if pwd = Some ''ag12de34''
           then (onToggleAdmin isAdminMode, [Prompt ''Enter Owner Password:''])
           else (isAdminMode,
                 [Prompt ''Enter Owner Password:'', Alert ''Incorrect Password. Access Denied.'']))"

text \<open>Whether \<^verbatim>\<open>SettingsView\<close> renders the owner mode switch at all.\<close>

definition ownerModeOffered :: "User \<Rightarrow> bool" where
  "ownerModeOffered user = (email user = ''agdealers8@gmail.com'')"

section \<open>The focus timer\<close>

datatype timer_mode = Work | Break

text \<open>
  The timer state of \<^verbatim>\<open>PlannerView\<close>; \<open>interval\<close>: the effect's interval is set, so
  that a tick can come; \<open>calls\<close>: the sounds played and alerts shown so far.
\<close>

record PlannerView =
  timerSeconds :: int
  isTimerRunning :: bool
  timerMode :: timer_mode
  interval :: bool
  calls :: "browser_call list"

definition plannerInit :: PlannerView where
  "plannerInit =
     \<lparr>timerSeconds = 0, isTimerRunning = False, timerMode = Work, interval = False, calls = []\<rparr>"

text \<open>What the effect does when the count is at zero: one sound and one alert.\<close>

definition notification :: "timer_mode \<Rightarrow> browser_call list" where
  "notification mode =
     [PlayAudio ''https://actions.google.com/sounds/v1/alarms/beep_short.ogg'',
      Alert (if mode = Work then ''Focus session complete! Take a break.''
             else ''Break over! Back to work.'')]"

text \<open>
  One run of the timer effect: the cleanup of the run before it, which clears the
  interval, and then the body.
\<close>

definition timerEffect :: "PlannerView \<Rightarrow> PlannerView" where
  "timerEffect st =
     (let st0 = st\<lparr>interval := False\<rparr>
      in if isTimerRunning st \<and> timerSeconds st > 0 then st0\<lparr>interval := True\<rparr>
         else if timerSeconds st = 0 \<and> isTimerRunning st
         then st0\<lparr>isTimerRunning := False, calls := calls st @ notification (timerMode st)\<rparr>
         else st0)"

text \<open>
  The effect's dependencies. After a handler has changed the state from \<open>old\<close> to
  \<open>new\<close> the view renders again, and the effect runs if a dependency has changed. If
  the effect itself changes one (it stops the timer at zero), the view renders once more
  and the effect runs again; that run finds the timer stopped and changes no dependency.
\<close>

definition deps :: "PlannerView \<Rightarrow> bool \<times> int \<times> timer_mode" where
  "deps st = (isTimerRunning st, timerSeconds st, timerMode st)"

definition rerender :: "PlannerView \<Rightarrow> PlannerView \<Rightarrow> PlannerView" where
  "rerender old new =
     (if deps new = deps old then new
      else
        let st1 = timerEffect new
        in if deps st1 = deps new then st1 else timerEffect st1)"

definition startTimer :: "int \<Rightarrow> timer_mode \<Rightarrow> PlannerView \<Rightarrow> PlannerView" where
  "startTimer minutes mode st =
     st\<lparr>timerMode := mode, timerSeconds := minutes * 60, isTimerRunning := True\<rparr>"

text \<open>
  What can happen to the timer: a click on one of the two start buttons, which the view
  shows while the timer is not running, a click on Stop, which it shows while the timer
  is running, and a tick of the interval while one is set.
\<close>

datatype planner_event = StartFocus | StartBreak | Stop | Tick

fun planner_step :: "planner_event \<Rightarrow> PlannerView \<Rightarrow> PlannerView" where
  "planner_step StartFocus st =
     (if \<not> isTimerRunning st then rerender st (startTimer 25 Work st) else st)"
| "planner_step StartBreak st =
     (if \<not> isTimerRunning st then rerender st (startTimer 5 Break st) else st)"
| "planner_step Stop st =
     (if isTimerRunning st then rerender st (st\<lparr>isTimerRunning := False\<rparr>) else st)"
| "planner_step Tick st =
     (if interval st then rerender st (st\<lparr>timerSeconds := timerSeconds st - 1\<rparr>) else st)"

definition planner_run :: "planner_event list \<Rightarrow> PlannerView \<Rightarrow> PlannerView" where
  "planner_run evs st = fold planner_step evs st"

text \<open>
  The states in which the view rests between events: the interval is set exactly while
  the timer runs with a positive count, and the timer does not run at zero.
\<close>

definition settled :: "PlannerView \<Rightarrow> bool" where
  "settled st =
     ((interval st = (isTimerRunning st \<and> 0 < timerSeconds st))
      \<and> \<not> (isTimerRunning st \<and> timerSeconds st = 0))"

section \<open>Properties\<close>

subsection \<open>Strings\<close>

lemma toString_small: "n < 10 \<Longrightarrow> toString n = [digit n]"
  by (simp add: toString.simps)

lemma toString_large: "\<not> n < 10 \<Longrightarrow> toString n = toString (n div 10) @ [digit (n mod 10)]"
  by (simp add: toString.simps)

lemma js_includes_sublist: "js_includes s q \<longleftrightarrow> sublist q s"
  by (induction s) (simp_all add: sublist_Cons_right)

subsection \<open>The chat turn\<close>

lemma setText_msg_id [simp]: "msg_id (setText i t m) = msg_id m"
  by (simp add: setText_def)

lemma setText_role [simp]: "role (setText i t m) = role m"
  by (simp add: setText_def)

lemma setText_timestamp [simp]: "timestamp (setText i t m) = timestamp m"
  by (simp add: setText_def)

lemma setText_setText [simp]: "setText i t (setText i t' m) = setText i t m"
  by (simp add: setText_def)

lemma streamLoop_delivered:
  "streamLoop f evs b s =
     (if StreamError \<in> set evs then Inl ProviderError else Inr (b @ concat (delivered evs)),
      fold f (delivered evs) s)"
proof (induction evs arbitrary: b s)
  case Nil
  show ?case by simp
next
  case (Cons ev evs)
  show ?case
  proof (cases ev)
    case (Chunk t)
    with Cons show ?thesis by simp
  next
    case StreamError
    then show ?thesis by simp
  qed
qed

lemma onChunk_pair:
  "onChunk i chunk (b, msgs) = (b @ chunk, map (setText i (b @ chunk)) msgs)"
  by (simp add: onChunk_def Let_def)

lemma fold_onChunk:
  "fold (onChunk i) fs (b, msgs) =
     (b @ concat fs, if fs = [] then msgs else map (setText i (b @ concat fs)) msgs)"
proof (induction fs arbitrary: b msgs)
  case Nil
  show ?case by simp
next
  case (Cons f fs)
  show ?case
    by (simp add: onChunk_pair Cons comp_def)
qed

lemma delivered_append:
  "StreamError \<notin> set pre \<Longrightarrow> delivered (pre @ post) = delivered pre @ delivered post"
proof (induction pre)
  case Nil
  show ?case by simp
next
  case (Cons ev pre)
  then show ?case by (cases ev) simp_all
qed

lemma delivered_skip:
  "\<not> truthy_opt t \<Longrightarrow> delivered (pre @ Chunk t # post) = delivered (pre @ post)"
proof (induction pre)
  case Nil
  then show ?case by simp
next
  case (Cons ev pre)
  then show ?case by (cases ev) simp_all
qed

lemma delivered_complete:
  "StreamError \<notin> set evs \<Longrightarrow>
     delivered evs =
       filter (\<lambda>t. t \<noteq> [])
         (List.map_filter (\<lambda>ev. case ev of Chunk t \<Rightarrow> t | StreamError \<Rightarrow> None) evs)"
proof (induction evs)
  case Nil
  show ?case by simp
next
  case (Cons ev evs)
  then show ?case
  proof (cases ev)
    case (Chunk t)
    with Cons show ?thesis
      by (cases t) (simp_all add: truthy_def)
  next
    case StreamError
    with Cons.prems show ?thesis by simp
  qed
qed

lemma last_sending: "last (messages (sending e st)) = placeholder e"
  by (simp add: sending_def)

lemma streamed_messages:
  "snd (snd (streamLoop (onChunk i) evs [] ([], msgs))) =
     (if delivered evs = [] then msgs else map (setText i (concat (delivered evs))) msgs)"
  by (simp add: streamLoop_delivered fold_onChunk)

lemma last_streamed:
  assumes "msgs \<noteq> []" and "msg_id (last msgs) = i" and "msg_text (last msgs) = []"
  shows "last (snd (snd (streamLoop (onChunk i) evs [] ([], msgs)))) =
           (last msgs)\<lparr>msg_text := concat (delivered evs)\<rparr>"
  using assms by (simp add: streamed_messages last_map setText_def)

text \<open>
  C1. In a turn whose stream ends without an error, the placeholder, which is the last
  message, ends with the concatenation of the fragments delivered, which are the
  non-empty texts of the stream's chunks in their order of arrival, and the turn adds
  two messages. After every prefix of the stream the
  placeholder shows the buffer accumulated so far and the rest of the stream continues
  from there. Each call of the callback sets every message that has the placeholder's id
  to the whole buffer. A chunk whose text is empty or undefined changes nothing: the turn
  is the turn of the stream without it.
\<close>

theorem handleSend_text_is_concat_of_fragments:
  assumes "truthy (trim (input st))" and "StreamError \<notin> set result"
  shows "last (messages (handleSend e result st)) =
           (placeholder e)\<lparr>msg_text := concat (delivered result)\<rparr>
       \<and> delivered result =
           filter (\<lambda>t. t \<noteq> [])
             (List.map_filter (\<lambda>ev. case ev of Chunk t \<Rightarrow> t | StreamError \<Rightarrow> None) result)
       \<and> length (messages (handleSend e result st)) = length (messages st) + 2
       \<and> (\<forall>pre post. result = pre @ post \<longrightarrow>
            (let (r, buffer, msgs) =
                   streamChatResponse pre (onChunk (aiMsgId e)) ([], messages (sending e st))
             in r = Inr (concat (delivered pre)) \<and> buffer = concat (delivered pre)
                \<and> last msgs = (placeholder e)\<lparr>msg_text := buffer\<rparr>
                \<and> streamChatResponse result (onChunk (aiMsgId e)) ([], messages (sending e st))
                    = streamLoop (onChunk (aiMsgId e)) post buffer (buffer, msgs)))
       \<and> (\<forall>chunk buffer msgs. \<forall>m \<in> set (snd (onChunk (aiMsgId e) chunk (buffer, msgs))).
            msg_id m = aiMsgId e \<longrightarrow> msg_text m = buffer @ chunk)
       \<and> (\<forall>pre t post. result = pre @ Chunk t # post \<and> \<not> truthy_opt t \<longrightarrow>
            handleSend e result st = handleSend e (pre @ post) st)"
proof -
  let ?i = "aiMsgId e"
  let ?m0 = "messages (sending e st)"
  have m0: "?m0 \<noteq> []" "msg_id (last ?m0) = ?i" "msg_text (last ?m0) = []"
    by (simp_all add: sending_def placeholder_def)
  have loop: "streamLoop (onChunk ?i) evs [] ([], ?m0) =
      (if StreamError \<in> set evs then Inl ProviderError else Inr (concat (delivered evs)),
       concat (delivered evs),
       snd (snd (streamLoop (onChunk ?i) evs [] ([], ?m0))))" for evs
    by (simp add: streamLoop_delivered fold_onChunk)
  have final: "messages (handleSend e result st) = snd (snd (streamLoop (onChunk ?i) result [] ([], ?m0)))"
    using assms
    by (simp add: handleSend_def streamChatResponse_def Let_def streamLoop_delivered fold_onChunk)
  have A: "last (messages (handleSend e result st)) =
           (placeholder e)\<lparr>msg_text := concat (delivered result)\<rparr>"
    unfolding final using last_streamed [OF m0] by (simp add: last_sending)
  have B: "length (messages (handleSend e result st)) = length (messages st) + 2"
    unfolding final by (simp add: streamed_messages sending_def)
  have C: "let (r, buffer, msgs) = streamChatResponse pre (onChunk ?i) ([], ?m0)
           in r = Inr (concat (delivered pre)) \<and> buffer = concat (delivered pre)
              \<and> last msgs = (placeholder e)\<lparr>msg_text := buffer\<rparr>
              \<and> streamChatResponse result (onChunk ?i) ([], ?m0)
                  = streamLoop (onChunk ?i) post buffer (buffer, msgs)"
    if split: "result = pre @ post" for pre post
  proof -
    from split assms(2) have pre: "StreamError \<notin> set pre" by simp
    have l: "last (snd (snd (streamLoop (onChunk ?i) pre [] ([], ?m0)))) =
               (placeholder e)\<lparr>msg_text := concat (delivered pre)\<rparr>"
      using last_streamed [OF m0] by (simp add: last_sending)
    have rest: "streamLoop (onChunk ?i) (pre @ post) [] ([], ?m0) =
                streamLoop (onChunk ?i) post (concat (delivered pre))
                  (concat (delivered pre), snd (snd (streamLoop (onChunk ?i) pre [] ([], ?m0))))"
      using pre by (simp add: streamLoop_delivered fold_onChunk delivered_append)
    show ?thesis
      unfolding streamChatResponse_def split
      by (subst loop [of pre]) (simp add: pre l rest del: fold_append)
  qed
  have D: "\<forall>m \<in> set (snd (onChunk ?i chunk (buffer, msgs))).
             msg_id m = ?i \<longrightarrow> msg_text m = buffer @ chunk" for chunk buffer msgs
    by (auto simp: onChunk_pair setText_def)
  have E: "handleSend e result st = handleSend e (pre @ post) st"
    if "result = pre @ Chunk t # post \<and> \<not> truthy_opt t" for pre t post
    using that
    by (simp add: handleSend_def streamChatResponse_def streamLoop_delivered delivered_skip)
  note F = delivered_complete [OF assms(2)]
  from A F B C D E show ?thesis by blast
qed

theorem handleSend_text_is_concat_of_fragments_witness:
  "truthy (trim (input \<lparr>messages = [], input = ''Hi'', isTyping = False, isVoiceMode = False,
      spoken = []\<rparr>))
   \<and> StreamError \<notin> set [Chunk (Some ''Hel''), Chunk None, Chunk (Some []), Chunk (Some ''lo'')]
   \<and> last (messages (handleSend
        \<lparr>clock = (\<lambda>k. 1700000000000 + k), hasSpeechSynthesis = False, language = ENGLISH\<rparr>
        [Chunk (Some ''Hel''), Chunk None, Chunk (Some []), Chunk (Some ''lo'')]
        \<lparr>messages = [], input = ''Hi'', isTyping = False, isVoiceMode = False, spoken = []\<rparr>))
     = \<lparr>msg_id = ''1700000000003'', role = Model, msg_text = ''Hello'',
        timestamp = 1700000000003\<rparr>"
proof -
  let ?st = "\<lparr>messages = [], input = ''Hi'', isTyping = False, isVoiceMode = False, spoken = []\<rparr>"
  let ?r = "[Chunk (Some ''Hel''), Chunk None, Chunk (Some []), Chunk (Some ''lo'')]"
  have h1: "truthy (trim (input ?st))"
    by (simp add: truthy_def trim_def isWhiteSpace_def)
  have h2: "StreamError \<notin> set ?r"
    by simp
  from handleSend_text_is_concat_of_fragments [OF h1 h2] h1 h2 show ?thesis
    by (simp add: placeholder_def aiMsgId_def truthy_def toString_small toString_large digit_def)
qed

text \<open>
  C7. In every turn the typing flag is cleared at the end, whether the stream completed
  or not. If the stream raises an error anywhere, the placeholder ends as the fixed
  sentence \<^verbatim>\<open>I'm having trouble connecting. Please try again.\<close> and nothing else:
  every message that has the placeholder's id carries that sentence, whatever fragments
  had arrived before the error.
\<close>

theorem handleSend_error_leaves_apology:
  assumes "truthy (trim (input st))"
  shows "\<not> isTyping (handleSend e result st)
       \<and> (StreamError \<in> set result \<longrightarrow>
            last (messages (handleSend e result st)) =
              (placeholder e)\<lparr>msg_text :=
                 ''I'' @ [CHR 0x27] @ ''m having trouble connecting. Please try again.''\<rparr>
          \<and> (\<forall>m \<in> set (messages (handleSend e result st)).
                msg_id m = aiMsgId e \<longrightarrow>
                  msg_text m = ''I'' @ [CHR 0x27] @ ''m having trouble connecting. Please try again.''))"
proof -
  let ?i = "aiMsgId e"
  let ?m0 = "messages (sending e st)"
  let ?msgs = "snd (snd (streamLoop (onChunk ?i) result [] ([], ?m0)))"
  have m0: "?m0 \<noteq> []" "msg_id (last ?m0) = ?i" "msg_text (last ?m0) = []"
    by (simp_all add: sending_def placeholder_def)
  have typing: "\<not> isTyping (handleSend e result st)"
    using assms
    by (simp add: handleSend_def streamChatResponse_def Let_def streamLoop_delivered fold_onChunk)
  have failed: "messages (handleSend e result st) = map (setText ?i apology) ?msgs"
    if "StreamError \<in> set result"
    using assms that
    by (simp add: handleSend_def streamChatResponse_def Let_def streamLoop_delivered fold_onChunk)
  have ne: "?msgs \<noteq> []"
    using m0(1) by (simp add: streamed_messages)
  have "setText ?i apology (last ?msgs) = (placeholder e)\<lparr>msg_text := apology\<rparr>"
    using last_streamed [OF m0] by (simp add: last_sending setText_def placeholder_def)
  then have l: "last (map (setText ?i apology) ?msgs) = (placeholder e)\<lparr>msg_text := apology\<rparr>"
    using ne by (simp add: last_map)
  have all: "\<forall>m \<in> set (map (setText ?i apology) ?msgs). msg_id m = ?i \<longrightarrow> msg_text m = apology"
    by (auto simp: setText_def)
  have lit: "apology = ''I'' @ [CHR 0x27] @ ''m having trouble connecting. Please try again.''"
    by (simp add: apology_def)
  from typing failed l all show ?thesis
    unfolding lit by simp
qed

theorem handleSend_error_leaves_apology_witness:
  "truthy (trim (input \<lparr>messages = [], input = ''Hi'', isTyping = False, isVoiceMode = False,
      spoken = []\<rparr>))
   \<and> StreamError \<in> set [Chunk (Some ''Hel''), StreamError, Chunk (Some ''lo'')]
   \<and> \<not> isTyping (handleSend
        \<lparr>clock = (\<lambda>k. 1700000000000 + k), hasSpeechSynthesis = False, language = ENGLISH\<rparr>
        [Chunk (Some ''Hel''), StreamError, Chunk (Some ''lo'')]
        \<lparr>messages = [], input = ''Hi'', isTyping = False, isVoiceMode = False, spoken = []\<rparr>)
   \<and> last (messages (handleSend
        \<lparr>clock = (\<lambda>k. 1700000000000 + k), hasSpeechSynthesis = False, language = ENGLISH\<rparr>
        [Chunk (Some ''Hel''), StreamError, Chunk (Some ''lo'')]
        \<lparr>messages = [], input = ''Hi'', isTyping = False, isVoiceMode = False, spoken = []\<rparr>))
     = \<lparr>msg_id = ''1700000000003'', role = Model,
        msg_text = ''I'' @ [CHR 0x27] @ ''m having trouble connecting. Please try again.'',
        timestamp = 1700000000003\<rparr>"
proof -
  let ?st = "\<lparr>messages = [], input = ''Hi'', isTyping = False, isVoiceMode = False, spoken = []\<rparr>"
  have h1: "truthy (trim (input ?st))"
    by (simp add: truthy_def trim_def isWhiteSpace_def)
  from handleSend_error_leaves_apology [OF h1] h1 show ?thesis
    by (simp add: placeholder_def aiMsgId_def truthy_def toString_small toString_large digit_def)
qed

subsection \<open>The quiz\<close>

lemma quiz_run_append:
  "quiz_run (evs @ evs') st =
     (case quiz_run evs st of Inl err \<Rightarrow> Inl err | Inr st' \<Rightarrow> quiz_run evs' st')"
  by (induction evs arbitrary: st) (simp_all split: sum.splits)

lemma handleAnswer_answered: "selectedAnswer st \<noteq> None \<Longrightarrow> handleAnswer index st = Inr st"
  by (simp add: handleAnswer_def)

lemma quiz_run_answered:
  "selectedAnswer st \<noteq> None \<Longrightarrow> quiz_run (map Answer others) st = Inr st"
  by (induction others) (simp_all add: handleAnswer_answered)

lemma quiz_run_question:
  assumes "selectedAnswer st = None" and "currentIndex st < length (questions st)"
  shows "quiz_run (Answer first # map Answer others @ [Next]) st =
           Inr (nextQuestion (st\<lparr>selectedAnswer := Some first,
                  score := score st
                    + (if first = correctAnswerIndex (questions st ! currentIndex st) then 1 else 0)\<rparr>))"
  using assms by (simp add: handleAnswer_def quiz_run_append quiz_run_answered)

lemma fullRun_Cons:
  "fullRun ((first, others) # clicks) =
     (Answer first # map Answer others @ [Next]) @ fullRun clicks"
  by (simp add: fullRun_def)

lemma quiz_run_rest:
  assumes "selectedAnswer st = None" and "\<not> showResult st" and "clicks \<noteq> []"
    and "currentIndex st + length clicks = length (questions st)"
  shows "\<exists>st'. quiz_run (fullRun clicks) st = Inr st'
           \<and> score st' = score st + correctFirst (drop (currentIndex st) (questions st)) clicks
           \<and> showResult st' \<and> questions st' = questions st"
  using assms
proof (induction clicks arbitrary: st)
  case Nil
  then show ?case by simp
next
  case (Cons c clicks)
  obtain first others where c: "c = (first, others)"
    by (cases c)
  let ?q = "questions st ! currentIndex st"
  let ?st1 = "st\<lparr>selectedAnswer := Some first,
                 score := score st + (if first = correctAnswerIndex ?q then 1 else 0)\<rparr>"
  from Cons.prems have idx: "currentIndex st < length (questions st)"
    by simp
  then have drop: "drop (currentIndex st) (questions st) = ?q # drop (Suc (currentIndex st)) (questions st)"
    by (simp add: Cons_nth_drop_Suc)
  have one: "quiz_run (Answer first # map Answer others @ [Next]) st = Inr (nextQuestion ?st1)"
    using Cons.prems(1) idx by (rule quiz_run_question)
  have run: "quiz_run (fullRun (c # clicks)) st = quiz_run (fullRun clicks) (nextQuestion ?st1)"
    by (simp only: c fullRun_Cons quiz_run_append one sum.case)
  show ?case
  proof (cases clicks)
    case Nil
    with Cons.prems have last: "\<not> int (currentIndex st) < int (length (questions st)) - 1"
      by simp
    show ?thesis
      unfolding run
      using last Nil
      by (simp add: nextQuestion_def fullRun_def correctFirst_def drop c)
  next
    case (Cons c' clicks')
    with Cons.prems have others: "int (currentIndex st) < int (length (questions st)) - 1"
      by simp
    let ?st2 = "nextQuestion ?st1"
    have st2: "?st2 = ?st1\<lparr>currentIndex := currentIndex st + 1, selectedAnswer := None\<rparr>"
      using others by (simp add: nextQuestion_def)
    have "\<exists>st'. quiz_run (fullRun clicks) ?st2 = Inr st'
           \<and> score st' = score ?st2 + correctFirst (drop (currentIndex ?st2) (questions ?st2)) clicks
           \<and> showResult st' \<and> questions st' = questions ?st2"
    proof (rule Cons.IH)
      show "selectedAnswer ?st2 = None" by (simp add: st2)
      show "\<not> showResult ?st2" using Cons.prems(2) by (simp add: st2)
      show "clicks \<noteq> []" using Cons by simp
      show "currentIndex ?st2 + length clicks = length (questions ?st2)"
        using Cons.prems(4) by (simp add: st2)
    qed
    then show ?thesis
      unfolding run
      by (auto simp: st2 correctFirst_def drop c)
  qed
qed

text \<open>
  C2. A quiz started on a non-empty list of questions and played as a full run ends
  without an error in a state whose score is the number of questions whose first answer
  was the correct one, and the view shows the result: that score over the number of
  questions.
\<close>

theorem full_run_score_counts_correct_first_answers:
  assumes "truthy (topic st)" and "qs \<noteq> []" and "length clicks = length qs"
  shows "\<exists>st'. quiz_run (fullRun clicks) (handleStart (Inr qs) st) = Inr st'
           \<and> score st' = correctFirst qs clicks
           \<and> showResult st'
           \<and> quizScreen st' = Result (correctFirst qs clicks) (length qs)"
proof -
  let ?st0 = "handleStart (Inr qs) st"
  have st0: "?st0 = st\<lparr>questions := qs, currentIndex := 0, score := 0, selectedAnswer := None,
                        showResult := False, isLoading := False\<rparr>"
    using assms(1) by (simp add: handleStart_def)
  have "\<exists>st'. quiz_run (fullRun clicks) ?st0 = Inr st'
           \<and> score st' = score ?st0 + correctFirst (drop (currentIndex ?st0) (questions ?st0)) clicks
           \<and> showResult st' \<and> questions st' = questions ?st0"
  proof (rule quiz_run_rest)
    show "selectedAnswer ?st0 = None" by (simp add: st0)
    show "\<not> showResult ?st0" by (simp add: st0)
    show "clicks \<noteq> []" using assms(2,3) by auto
    show "currentIndex ?st0 + length clicks = length (questions ?st0)"
      using assms(3) by (simp add: st0)
  qed
  then show ?thesis
    by (auto simp: st0 quizScreen_def)
qed

theorem full_run_score_counts_correct_first_answers_witness:
  "truthy (topic \<lparr>topic = ''Calculus'', requirements = [], questions = [], currentIndex = 0,
      score = 0, selectedAnswer = None, showResult = False, isLoading = False, alerts = []\<rparr>)
   \<and> (\<exists>st'. quiz_run (fullRun [(1, [0, 2]), (0, []), (2, [2])])
          (handleStart
             (Inr [\<lparr>question = ''q1'', options = [''a'', ''b'', ''c''], correctAnswerIndex = 1,
                     explanation = []\<rparr>,
                   \<lparr>question = ''q2'', options = [''a'', ''b'', ''c''], correctAnswerIndex = 2,
                     explanation = []\<rparr>,
                   \<lparr>question = ''q3'', options = [''a'', ''b'', ''c''], correctAnswerIndex = 2,
                     explanation = []\<rparr>])
             \<lparr>topic = ''Calculus'', requirements = [], questions = [], currentIndex = 0,
               score = 0, selectedAnswer = None, showResult = False, isLoading = False,
               alerts = []\<rparr>) = Inr st'
        \<and> score st' = 2 \<and> showResult st' \<and> quizScreen st' = Result 2 3)"
proof -
  let ?st = "\<lparr>topic = ''Calculus'', requirements = [], questions = [], currentIndex = 0,
      score = 0, selectedAnswer = None, showResult = False, isLoading = False, alerts = []\<rparr>"
  let ?qs = "[\<lparr>question = ''q1'', options = [''a'', ''b'', ''c''], correctAnswerIndex = 1,
                     explanation = []\<rparr>,
                   \<lparr>question = ''q2'', options = [''a'', ''b'', ''c''], correctAnswerIndex = 2,
                     explanation = []\<rparr>,
                   \<lparr>question = ''q3'', options = [''a'', ''b'', ''c''], correctAnswerIndex = 2,
                     explanation = []\<rparr>]"
  have h1: "truthy (topic ?st)" by (simp add: truthy_def)
  have h2: "?qs \<noteq> []" by simp
  have h3: "length [(1::int, [0, 2::int]), (0, []), (2, [2])] = length ?qs" by simp
  have c: "correctFirst ?qs [(1, [0, 2]), (0, []), (2, [2])] = 2"
    by (simp add: correctFirst_def)
  have n: "length ?qs = 3" by simp
  from full_run_score_counts_correct_first_answers [OF h1 h2 h3] h1 show ?thesis
    unfolding c n by simp
qed

text \<open>
  C3. Once an answer is selected, \<^verbatim>\<open>handleAnswer\<close> returns the state as it is, so
  neither the score nor the selected answer changes; in particular a second call after
  an accepted one changes nothing.
\<close>

theorem handleAnswer_second_selection_ignored:
  "(selectedAnswer st \<noteq> None \<longrightarrow> handleAnswer j st = Inr st)
   \<and> (selectedAnswer st = None \<and> handleAnswer i st = Inr st1 \<longrightarrow>
        selectedAnswer st1 = Some i \<and> handleAnswer j st1 = Inr st1)"
  by (auto simp: handleAnswer_def split: if_splits)

theorem handleAnswer_second_selection_ignored_witness:
  "selectedAnswer
     \<lparr>topic = ''Calculus'', requirements = [],
       questions = [\<lparr>question = ''q1'', options = [''a'', ''b''], correctAnswerIndex = 1,
                     explanation = []\<rparr>],
       currentIndex = 0, score = 0, selectedAnswer = None, showResult = False,
       isLoading = False, alerts = []\<rparr> = None
   \<and> handleAnswer 1
     \<lparr>topic = ''Calculus'', requirements = [],
       questions = [\<lparr>question = ''q1'', options = [''a'', ''b''], correctAnswerIndex = 1,
                     explanation = []\<rparr>],
       currentIndex = 0, score = 0, selectedAnswer = None, showResult = False,
       isLoading = False, alerts = []\<rparr>
     = Inr \<lparr>topic = ''Calculus'', requirements = [],
       questions = [\<lparr>question = ''q1'', options = [''a'', ''b''], correctAnswerIndex = 1,
                     explanation = []\<rparr>],
       currentIndex = 0, score = 1, selectedAnswer = Some 1, showResult = False,
       isLoading = False, alerts = []\<rparr>
   \<and> handleAnswer 0
     \<lparr>topic = ''Calculus'', requirements = [],
       questions = [\<lparr>question = ''q1'', options = [''a'', ''b''], correctAnswerIndex = 1,
                     explanation = []\<rparr>],
       currentIndex = 0, score = 1, selectedAnswer = Some 1, showResult = False,
       isLoading = False, alerts = []\<rparr>
     = Inr \<lparr>topic = ''Calculus'', requirements = [],
       questions = [\<lparr>question = ''q1'', options = [''a'', ''b''], correctAnswerIndex = 1,
                     explanation = []\<rparr>],
       currentIndex = 0, score = 1, selectedAnswer = Some 1, showResult = False,
       isLoading = False, alerts = []\<rparr>"
proof -
  let ?st = "\<lparr>topic = ''Calculus'', requirements = [],
       questions = [\<lparr>question = ''q1'', options = [''a'', ''b''], correctAnswerIndex = 1,
                     explanation = []\<rparr>],
       currentIndex = 0, score = 0, selectedAnswer = None, showResult = False,
       isLoading = False, alerts = []\<rparr>"
  let ?st1 = "\<lparr>topic = ''Calculus'', requirements = [],
       questions = [\<lparr>question = ''q1'', options = [''a'', ''b''], correctAnswerIndex = 1,
                     explanation = []\<rparr>],
       currentIndex = 0, score = 1, selectedAnswer = Some 1, showResult = False,
       isLoading = False, alerts = []\<rparr>"
  have h1: "selectedAnswer ?st = None" by simp
  have h2: "handleAnswer 1 ?st = Inr ?st1" by (simp add: handleAnswer_def)
  from handleAnswer_second_selection_ignored [of ?st 0 1 ?st1] h1 h2 show ?thesis
    by simp
qed

subsection \<open>The library\<close>

lemma sublist_map_iff:
  "sublist (map f q) (map f s) \<longleftrightarrow> (\<exists>pre mid post. s = pre @ mid @ post \<and> map f mid = map f q)"
proof
  assume "sublist (map f q) (map f s)"
  then obtain ps ss where "map f s = ps @ (map f q @ ss)"
    by (auto simp: sublist_def)
  then obtain pre rest where s: "s = pre @ rest" and "map f q @ ss = map f rest"
    unfolding map_eq_append_conv by blast
  then obtain mid post where "rest = mid @ post" and "map f q = map f mid"
    unfolding append_eq_map_conv by blast
  with s show "\<exists>pre mid post. s = pre @ mid @ post \<and> map f mid = map f q"
    by auto
next
  assume "\<exists>pre mid post. s = pre @ mid @ post \<and> map f mid = map f q"
  then obtain pre mid post where "s = pre @ mid @ post" and "map f mid = map f q"
    by blast
  then have "map f s = map f pre @ map f q @ map f post"
    by simp
  then show "sublist (map f q) (map f s)"
    unfolding sublist_def by blast
qed

lemma js_includes_toLowerCase:
  "js_includes (toLowerCase s) (toLowerCase q) \<longleftrightarrow>
     (\<exists>pre mid post. s = pre @ mid @ post \<and> toLowerCase mid = toLowerCase q)"
  by (simp add: js_includes_sublist toLowerCase_def sublist_map_iff)

text \<open>
  C4. The books shown, and the local results of a search, are the books whose title has
  a contiguous part that equals the query once both are in lower case. A search calls
  the external provider exactly when there is no such book and the query is longer than
  3; then it calls it once, with the query, whatever the provider answers.
\<close>

theorem handleSearch_external_call_iff_no_local_match:
  "filteredBooks st =
     filter (\<lambda>b. \<exists>pre mid post. title b = pre @ mid @ post
                    \<and> toLowerCase mid = toLowerCase (searchQuery st)) (books st)
   \<and> externalCalls (handleSearch response st) =
       externalCalls st @
         (if filteredBooks st = [] \<and> length (searchQuery st) > 3 then [searchQuery st] else [])"
proof -
  have "externalCalls (handleSearch response st) =
       externalCalls st @
         (if filteredBooks st = [] \<and> length (searchQuery st) > 3 then [searchQuery st] else [])"
    by (simp add: handleSearch_def filteredBooks_def Let_def split: sum.splits)
  then show ?thesis
    by (simp add: filteredBooks_def js_includes_toLowerCase)
qed

theorem handleSearch_external_call_iff_no_local_match_witness:
  "filteredBooks \<lparr>searchQuery = ''phys'', books = seedBooks, searching = False,
      externalLink = None, externalCalls = []\<rparr> = [hd seedBooks]
   \<and> externalCalls (handleSearch (Inl ProviderError)
        \<lparr>searchQuery = ''phys'', books = seedBooks, searching = False, externalLink = None,
          externalCalls = []\<rparr>) = []
   \<and> filteredBooks \<lparr>searchQuery = ''Quantum Biology'', books = seedBooks, searching = False,
      externalLink = None, externalCalls = []\<rparr> = []
   \<and> externalCalls (handleSearch (Inl ProviderError)
        \<lparr>searchQuery = ''Quantum Biology'', books = seedBooks, searching = False,
          externalLink = None, externalCalls = []\<rparr>) = [''Quantum Biology'']"
proof -
  let ?st1 = "\<lparr>searchQuery = ''phys'', books = seedBooks, searching = False,
      externalLink = None, externalCalls = []\<rparr>"
  let ?st2 = "\<lparr>searchQuery = ''Quantum Biology'', books = seedBooks, searching = False,
      externalLink = None, externalCalls = []\<rparr>"
  have f1: "filteredBooks ?st1 = [hd seedBooks]"
    by (simp add: filteredBooks_def seedBooks_def toLowerCase_def toLowerChar_def char_of_def bit_0)
  have f2: "filteredBooks ?st2 = []"
    by (simp add: filteredBooks_def seedBooks_def toLowerCase_def toLowerChar_def char_of_def bit_0)
  from handleSearch_external_call_iff_no_local_match [of ?st1 "Inl ProviderError"]
    handleSearch_external_call_iff_no_local_match [of ?st2 "Inl ProviderError"]
  show ?thesis
    unfolding f1 f2 by simp
qed

subsection \<open>The owner mode\<close>

text \<open>
  C5, as the claim states it, fails: with the owner mode on, the switch turns it off
  without any prompt, whatever would have been typed.
\<close>

theorem handleAdminToggle_off_without_secret:
  "handleAdminToggle None True = (False, [])"
  by (simp add: handleAdminToggle_def onToggleAdmin_def)

text \<open>
  C5, amended. The switch is offered to the account with the designated e-mail address
  only. With the owner mode off, the switch prompts for the secret: the exact secret
  turns the mode on, every other answer, a cancelled prompt included, shows the fixed
  denial and leaves the mode off. With the owner mode on, the switch turns it off and
  asks for nothing.
\<close>

theorem handleAdminToggle_secret_needed_to_turn_on:
  "(ownerModeOffered user \<longleftrightarrow> email user = ''agdealers8@gmail.com'')
   \<and> (\<not> isAdminMode \<and> answer = Some ''ag12de34'' \<longrightarrow>
        handleAdminToggle answer isAdminMode = (True, [Prompt ''Enter Owner Password:'']))
   \<and> (\<not> isAdminMode \<and> answer \<noteq> Some ''ag12de34'' \<longrightarrow>
        handleAdminToggle answer isAdminMode =
          (False, [Prompt ''Enter Owner Password:'', Alert ''Incorrect Password. Access Denied.'']))
   \<and> (isAdminMode \<longrightarrow> handleAdminToggle answer isAdminMode = (False, []))"
  by (simp add: handleAdminToggle_def onToggleAdmin_def ownerModeOffered_def)

theorem handleAdminToggle_secret_needed_to_turn_on_witness:
  "ownerModeOffered \<lparr>name = ''Owner'', email = ''agdealers8@gmail.com'', isLoggedIn = True\<rparr>
   \<and> handleAdminToggle (Some ''ag12de34'') False = (True, [Prompt ''Enter Owner Password:''])
   \<and> handleAdminToggle (Some ''AG12DE34'') False =
        (False, [Prompt ''Enter Owner Password:'', Alert ''Incorrect Password. Access Denied.''])
   \<and> handleAdminToggle (Some ''AG12DE34'') True = (False, [])"
  using handleAdminToggle_secret_needed_to_turn_on
      [of "\<lparr>name = ''Owner'', email = ''agdealers8@gmail.com'', isLoggedIn = True\<rparr>"
          False "Some ''ag12de34''"]
    handleAdminToggle_secret_needed_to_turn_on
      [of "\<lparr>name = ''Owner'', email = ''agdealers8@gmail.com'', isLoggedIn = True\<rparr>"
          False "Some ''AG12DE34''"]
    handleAdminToggle_secret_needed_to_turn_on
      [of "\<lparr>name = ''Owner'', email = ''agdealers8@gmail.com'', isLoggedIn = True\<rparr>"
          True "Some ''AG12DE34''"]
  by simp

subsection \<open>The focus timer\<close>

lemma rerender_start:
  assumes "settled st" and "0 < minutes"
  shows "rerender st (startTimer minutes mode st) =
           st\<lparr>timerMode := mode, timerSeconds := minutes * 60, isTimerRunning := True,
              interval := True\<rparr>"
  using assms
  by (auto simp: rerender_def startTimer_def deps_def timerEffect_def settled_def Let_def)

lemma tick_positive:
  assumes "isTimerRunning st" and "interval st" and "1 < timerSeconds st"
  shows "planner_step Tick st = st\<lparr>timerSeconds := timerSeconds st - 1\<rparr>"
  using assms by (simp add: rerender_def deps_def timerEffect_def Let_def)

lemma tick_last:
  assumes "isTimerRunning st" and "interval st" and "timerSeconds st = 1"
  shows "planner_step Tick st =
           st\<lparr>timerSeconds := 0, isTimerRunning := False, interval := False,
              calls := calls st @ notification (timerMode st)\<rparr>"
  using assms by (simp add: rerender_def deps_def timerEffect_def Let_def)

lemma ticks_idle: "\<not> interval st \<Longrightarrow> planner_run (replicate k Tick) st = st"
  by (induction k) (simp_all add: planner_run_def)

lemma countdown:
  assumes "isTimerRunning st" and "interval st" and "timerSeconds st = int n" and "0 < n"
  shows "planner_run (replicate k Tick) st =
           (if k < n then st\<lparr>timerSeconds := int n - int k\<rparr>
            else st\<lparr>timerSeconds := 0, isTimerRunning := False, interval := False,
                    calls := calls st @ notification (timerMode st)\<rparr>)"
  using assms
proof (induction k arbitrary: st n)
  case 0
  then show ?case by (simp add: planner_run_def)
next
  case (Suc k)
  have unfold: "planner_run (replicate (Suc k) Tick) st =
                  planner_run (replicate k Tick) (planner_step Tick st)"
    by (simp add: planner_run_def)
  show ?case
  proof (cases "n = 1")
    case True
    with Suc.prems have "planner_step Tick st =
        st\<lparr>timerSeconds := 0, isTimerRunning := False, interval := False,
           calls := calls st @ notification (timerMode st)\<rparr>"
      by (intro tick_last) simp_all
    with True show ?thesis
      unfolding unfold by (simp add: ticks_idle)
  next
    case False
    with Suc.prems obtain m where n: "n = Suc m" and m: "0 < m"
      by (cases n) auto
    let ?st1 = "st\<lparr>timerSeconds := timerSeconds st - 1\<rparr>"
    from Suc.prems False have step: "planner_step Tick st = ?st1"
      by (intro tick_positive) simp_all
    have "planner_run (replicate k Tick) ?st1 =
           (if k < m then ?st1\<lparr>timerSeconds := int m - int k\<rparr>
            else ?st1\<lparr>timerSeconds := 0, isTimerRunning := False, interval := False,
                    calls := calls ?st1 @ notification (timerMode ?st1)\<rparr>)"
      using Suc.prems m by (intro Suc.IH) (simp_all add: n)
    then show ?thesis
      unfolding unfold step by (simp add: n)
  qed
qed

text \<open>
  C6. \<^verbatim>\<open>startTimer\<close> sets the mode, the count and the running flag from its arguments
  whatever the state was, a running timer included; the two buttons call it with 25
  minutes of work, which is 1500 seconds, and 5 minutes of break. From a resting state,
  after \<open>k\<close> ticks the count is down by \<open>k\<close> while \<open>k\<close> is below the seconds started
  with, the timer still runs and nothing else has changed; from the tick that reaches
  zero on, the timer is stopped, the count is 0, and exactly one sound and one alert have
  been added, however many ticks follow.
\<close>

theorem startTimer_counts_down_and_notifies_once:
  assumes "settled st" and "0 < minutes"
  shows "startTimer minutes mode st =
           st\<lparr>timerMode := mode, timerSeconds := minutes * 60, isTimerRunning := True\<rparr>
       \<and> timerSeconds (startTimer 25 Work st) = 1500
       \<and> (\<not> isTimerRunning st \<longrightarrow>
            planner_step StartFocus st = rerender st (startTimer 25 Work st)
          \<and> planner_step StartBreak st = rerender st (startTimer 5 Break st))
       \<and> planner_run (replicate k Tick) (rerender st (startTimer minutes mode st)) =
           (if int k < minutes * 60
            then st\<lparr>timerMode := mode, timerSeconds := minutes * 60 - int k,
                    isTimerRunning := True, interval := True\<rparr>
            else st\<lparr>timerMode := mode, timerSeconds := 0, isTimerRunning := False,
                    interval := False, calls := calls st @ notification mode\<rparr>)"
proof -
  let ?st1 = "st\<lparr>timerMode := mode, timerSeconds := minutes * 60, isTimerRunning := True,
                 interval := True\<rparr>"
  have st1: "rerender st (startTimer minutes mode st) = ?st1"
    using assms by (rule rerender_start)
  from assms(2) have n: "timerSeconds ?st1 = int (nat (minutes * 60))" "0 < nat (minutes * 60)"
    by simp_all
  have "planner_run (replicate k Tick) ?st1 =
           (if k < nat (minutes * 60) then ?st1\<lparr>timerSeconds := int (nat (minutes * 60)) - int k\<rparr>
            else ?st1\<lparr>timerSeconds := 0, isTimerRunning := False, interval := False,
                    calls := calls ?st1 @ notification (timerMode ?st1)\<rparr>)"
    by (rule countdown [OF _ _ n]) simp_all
  moreover have "k < nat (minutes * 60) \<longleftrightarrow> int k < minutes * 60"
    by auto
  ultimately have run: "planner_run (replicate k Tick) ?st1 =
           (if int k < minutes * 60
            then st\<lparr>timerMode := mode, timerSeconds := minutes * 60 - int k,
                    isTimerRunning := True, interval := True\<rparr>
            else st\<lparr>timerMode := mode, timerSeconds := 0, isTimerRunning := False,
                    interval := False, calls := calls st @ notification mode\<rparr>)"
    using assms(2) by simp
  show ?thesis
    unfolding st1 run by (simp add: startTimer_def)
qed

theorem startTimer_counts_down_and_notifies_once_witness:
  "settled plannerInit \<and> (0::int) < 25
   \<and> planner_step StartFocus plannerInit =
       \<lparr>timerSeconds = 1500, isTimerRunning = True, timerMode = Work, interval = True, calls = []\<rparr>
   \<and> planner_run (replicate 1499 Tick) (planner_step StartFocus plannerInit) =
       \<lparr>timerSeconds = 1, isTimerRunning = True, timerMode = Work, interval = True, calls = []\<rparr>
   \<and> planner_run (replicate 1500 Tick) (planner_step StartFocus plannerInit) =
       \<lparr>timerSeconds = 0, isTimerRunning = False, timerMode = Work, interval = False,
         calls = [PlayAudio ''https://actions.google.com/sounds/v1/alarms/beep_short.ogg'',
                  Alert ''Focus session complete! Take a break.'']\<rparr>
   \<and> planner_run (replicate 2000 Tick) (planner_step StartFocus plannerInit) =
       planner_run (replicate 1500 Tick) (planner_step StartFocus plannerInit)"
proof -
  have h1: "settled plannerInit"
    by (simp add: settled_def plannerInit_def)
  have h2: "(0::int) < 25"
    by simp
  have start: "planner_step StartFocus plannerInit =
                 rerender plannerInit (startTimer 25 Work plannerInit)"
    by (simp add: plannerInit_def)
  note t = startTimer_counts_down_and_notifies_once [OF h1 h2, of Work]
  have r0: "rerender plannerInit (startTimer 25 Work plannerInit) =
      \<lparr>timerSeconds = 1500, isTimerRunning = True, timerMode = Work, interval = True, calls = []\<rparr>"
    using t [of 0, THEN conjunct2, THEN conjunct2, THEN conjunct2] by (simp add: planner_run_def plannerInit_def)
  have r1: "planner_run (replicate 1499 Tick) (rerender plannerInit (startTimer 25 Work plannerInit)) =
      \<lparr>timerSeconds = 1, isTimerRunning = True, timerMode = Work, interval = True, calls = []\<rparr>"
    using t [of 1499, THEN conjunct2, THEN conjunct2, THEN conjunct2] by (simp add: plannerInit_def)
  have r2: "planner_run (replicate 1500 Tick) (rerender plannerInit (startTimer 25 Work plannerInit)) =
      \<lparr>timerSeconds = 0, isTimerRunning = False, timerMode = Work, interval = False,
        calls = [PlayAudio ''https://actions.google.com/sounds/v1/alarms/beep_short.ogg'',
                 Alert ''Focus session complete! Take a break.'']\<rparr>"
    using t [of 1500, THEN conjunct2, THEN conjunct2, THEN conjunct2] by (simp add: plannerInit_def notification_def)
  have r3: "planner_run (replicate 2000 Tick) (rerender plannerInit (startTimer 25 Work plannerInit)) =
      \<lparr>timerSeconds = 0, isTimerRunning = False, timerMode = Work, interval = False,
        calls = [PlayAudio ''https://actions.google.com/sounds/v1/alarms/beep_short.ogg'',
                 Alert ''Focus session complete! Take a break.'']\<rparr>"
    using t [of 2000, THEN conjunct2, THEN conjunct2, THEN conjunct2] by (simp add: plannerInit_def notification_def)
  show ?thesis
    unfolding start using h1 r1 r2 r3 by (simp add: r0)
qed

text \<open>
  C10. Stop on a timer that runs with a positive count clears the running flag and the
  interval and nothing else: count, mode, sounds and alerts stay, and the ticks that
  follow change nothing. Whatever the state, an event adds a sound or an alert only if
  it is a tick that takes the count of a running timer from 1 to 0, and then it adds
  the one notification.
\<close>

theorem stop_keeps_count_and_fires_nothing:
  "(isTimerRunning st \<and> 0 < timerSeconds st \<longrightarrow>
      planner_step Stop st = st\<lparr>isTimerRunning := False, interval := False\<rparr>
    \<and> planner_run (replicate k Tick) (planner_step Stop st) = planner_step Stop st)
   \<and> (calls (planner_step ev st) \<noteq> calls st \<longrightarrow>
        ev = Tick \<and> isTimerRunning st \<and> interval st \<and> timerSeconds st = 1
      \<and> timerSeconds (planner_step ev st) = 0
      \<and> calls (planner_step ev st) = calls st @ notification (timerMode st))"
proof -
  have stop: "planner_step Stop st = st\<lparr>isTimerRunning := False, interval := False\<rparr>"
    if "isTimerRunning st \<and> 0 < timerSeconds st"
    using that by (simp add: rerender_def deps_def timerEffect_def Let_def)
  have idle: "planner_run (replicate k Tick) (planner_step Stop st) = planner_step Stop st"
    if "isTimerRunning st \<and> 0 < timerSeconds st"
    using that by (simp add: stop ticks_idle del: planner_step.simps)
  have only: "ev = Tick \<and> isTimerRunning st \<and> interval st \<and> timerSeconds st = 1
      \<and> timerSeconds (planner_step ev st) = 0
      \<and> calls (planner_step ev st) = calls st @ notification (timerMode st)"
    if "calls (planner_step ev st) \<noteq> calls st"
    using that
    by (cases ev)
      (auto simp: rerender_def deps_def timerEffect_def startTimer_def Let_def split: if_splits)
  from stop idle only show ?thesis by blast
qed

theorem stop_keeps_count_and_fires_nothing_witness:
  "isTimerRunning (planner_run (replicate 100 Tick) (planner_step StartFocus plannerInit))
   \<and> planner_step Stop (planner_run (replicate 100 Tick) (planner_step StartFocus plannerInit)) =
       \<lparr>timerSeconds = 1400, isTimerRunning = False, timerMode = Work, interval = False,
         calls = []\<rparr>
   \<and> calls (planner_step Tick
        \<lparr>timerSeconds = 1, isTimerRunning = True, timerMode = Break, interval = True, calls = []\<rparr>)
       \<noteq> calls \<lparr>timerSeconds = 1, isTimerRunning = True, timerMode = Break, interval = True,
              calls = []\<rparr>
   \<and> calls (planner_step Tick
        \<lparr>timerSeconds = 1, isTimerRunning = True, timerMode = Break, interval = True, calls = []\<rparr>)
       = [PlayAudio ''https://actions.google.com/sounds/v1/alarms/beep_short.ogg'',
          Alert ''Break over! Back to work.'']"
proof -
  let ?st = "planner_run (replicate 100 Tick) (planner_step StartFocus plannerInit)"
  let ?one = "\<lparr>timerSeconds = 1, isTimerRunning = True, timerMode = Break, interval = True,
                calls = []\<rparr>"
  let ?run = "\<lparr>timerSeconds = 1400, isTimerRunning = True, timerMode = Work, interval = True,
                calls = []\<rparr>"
  have start: "planner_step StartFocus plannerInit =
      \<lparr>timerSeconds = 1500, isTimerRunning = True, timerMode = Work, interval = True, calls = []\<rparr>"
    by (simp add: plannerInit_def rerender_def deps_def timerEffect_def startTimer_def Let_def)
  have st: "?st = ?run"
    unfolding start
    using countdown [of "\<lparr>timerSeconds = 1500, isTimerRunning = True, timerMode = Work,
                           interval = True, calls = []\<rparr>" 1500 100]
    by simp
  have fired: "calls (planner_step Tick ?one) \<noteq> calls ?one"
    by (simp add: rerender_def deps_def timerEffect_def Let_def notification_def)
  have stopped: "planner_step Stop ?run = ?run\<lparr>isTimerRunning := False, interval := False\<rparr>"
    using stop_keeps_count_and_fires_nothing [of ?run 0 Tick] by simp
  have once: "calls (planner_step Tick ?one) = calls ?one @ notification (timerMode ?one)"
    using stop_keeps_count_and_fires_nothing [of ?one 0 Tick] fired by blast
  show ?thesis
    unfolding st stopped using fired once by (simp add: notification_def)
qed

subsection \<open>The flashcards\<close>

lemma num_rem_range:
  assumes "0 \<le> a" and "0 < b"
  shows "num_rem (Num a) b = Num (a mod b)" and "0 \<le> a mod b" and "a mod b < b"
  using assms by (simp_all add: sgn_if)

text \<open>
  C8. With \<open>N > 0\<close> cards and the index at an integer \<open>i \<ge> 0\<close>, Next and Previous
  both leave an integer index in \<open>[0, N)\<close>; Next from \<open>N - 1\<close> gives 0 and Previous from
  0 gives \<open>N - 1\<close>.
\<close>

theorem handleNext_handlePrev_wrap:
  assumes "cards st \<noteq> []" and "FlashcardView.currentIndex st = Num i" and "0 \<le> i"
  shows "(\<exists>j. FlashcardView.currentIndex (handleNext st) = Num j
              \<and> 0 \<le> j \<and> j < int (length (cards st)))
       \<and> (\<exists>j. FlashcardView.currentIndex (handlePrev st) = Num j
              \<and> 0 \<le> j \<and> j < int (length (cards st)))
       \<and> (i = int (length (cards st)) - 1 \<longrightarrow>
            FlashcardView.currentIndex (handleNext st) = Num 0)
       \<and> (i = 0 \<longrightarrow>
            FlashcardView.currentIndex (handlePrev st) = Num (int (length (cards st)) - 1))"
proof -
  let ?n = "int (length (cards st))"
  from assms(1) have n: "0 < ?n" by simp
  have nxt: "FlashcardView.currentIndex (handleNext st) = Num ((i + 1) mod ?n)"
    using assms n by (simp add: handleNext_def num_rem_range(1))
  have prv: "FlashcardView.currentIndex (handlePrev st) = Num ((i - 1 + ?n) mod ?n)"
  proof -
    have "0 \<le> i - 1 + ?n"
      using assms(3) n by linarith
    then have "num_rem (Num (i - 1 + ?n)) ?n = Num ((i - 1 + ?n) mod ?n)"
      using n by (rule num_rem_range(1))
    moreover have "FlashcardView.currentIndex (handlePrev st) = num_rem (Num (i - 1 + ?n)) ?n"
      using assms(2) by (simp add: handlePrev_def)
    ultimately show ?thesis
      by (simp only:)
  qed
  have A: "\<exists>j. FlashcardView.currentIndex (handleNext st) = Num j \<and> 0 \<le> j \<and> j < ?n"
    unfolding nxt using n by (intro exI [of _ "(i + 1) mod ?n"]) simp
  have B: "\<exists>j. FlashcardView.currentIndex (handlePrev st) = Num j \<and> 0 \<le> j \<and> j < ?n"
    unfolding prv using n by (intro exI [of _ "(i - 1 + ?n) mod ?n"]) simp
  have C: "i = ?n - 1 \<longrightarrow> FlashcardView.currentIndex (handleNext st) = Num 0"
    unfolding nxt by simp
  have D: "i = 0 \<longrightarrow> FlashcardView.currentIndex (handlePrev st) = Num (?n - 1)"
  proof
    assume "i = 0"
    then have "i - 1 + ?n = ?n - 1"
      by simp
    moreover have "(?n - 1) mod ?n = ?n - 1"
      using n by (intro mod_pos_pos_trivial) simp_all
    ultimately show "FlashcardView.currentIndex (handlePrev st) = Num (?n - 1)"
      unfolding prv by (simp only:)
  qed
  from A B C D show ?thesis
    by blast
qed

theorem handleNext_handlePrev_wrap_witness:
  "cards (flash_step (Generate (Inr twoCards)) (flashInit ''Cells'')) \<noteq> []
   \<and> FlashcardView.currentIndex (flash_step (Generate (Inr twoCards)) (flashInit ''Cells'')) = Num 0
   \<and> FlashcardView.currentIndex
       (handlePrev (flash_step (Generate (Inr twoCards)) (flashInit ''Cells''))) = Num 1
   \<and> FlashcardView.currentIndex
       (handleNext (handlePrev (flash_step (Generate (Inr twoCards)) (flashInit ''Cells'')))) = Num 0"
proof -
  let ?st = "flash_step (Generate (Inr twoCards)) (flashInit ''Cells'')"
  have c: "cards ?st = [0, 1]"
    by (simp add: handleGenerate_def flashInit_def twoCards_def truthy_def imageEffect_def
        loadImg_def Let_def upt_rec)
  have i: "FlashcardView.currentIndex ?st = Num 0"
    by (simp add: handleGenerate_def flashInit_def twoCards_def truthy_def imageEffect_def
        loadImg_def Let_def)
  have c': "cards (handlePrev ?st) = [0, 1]"
    unfolding handlePrev_def using c by simp
  have h1: "cards ?st \<noteq> []"
    unfolding c by simp
  have h1': "cards (handlePrev ?st) \<noteq> []"
    unfolding c' by simp
  have prv: "FlashcardView.currentIndex (handlePrev ?st) = Num 1"
    using handleNext_handlePrev_wrap [OF h1 i] unfolding c by simp
  have nxt: "FlashcardView.currentIndex (handleNext (handlePrev ?st)) = Num 0"
    using handleNext_handlePrev_wrap [OF h1' prv] unfolding c' by simp
  show ?thesis
    using h1 i prv nxt by (simp only: simp_thms)
qed

lemma loadImg_sends_for_current_card_only:
  assumes "pending (loadImg st) \<noteq> pending st"
  shows "\<exists>r. at_index (cards st) (FlashcardView.currentIndex st) = Some r
             \<and> \<not> truthy_opt (generatedImage (heap st ! r))
             \<and> truthy_opt (imageKeyword (heap st ! r))
             \<and> pending (loadImg st) = pending st @
                   [\<lparr>fetch_cards = cards st, fetch_index = FlashcardView.currentIndex st,
                     fetch_keyword = the (imageKeyword (heap st ! r))\<rparr>]"
  using assms by (auto simp: loadImg_def Let_def split: option.splits if_splits)

lemma heap_loadImg [simp]: "heap (loadImg st) = heap st"
  by (simp add: loadImg_def Let_def split: option.splits)

lemma heap_imageEffect [simp]: "heap (imageEffect st) = heap st"
  by (simp add: imageEffect_def)

lemma resolveImg_writes_one_card:
  "\<exists>r. \<forall>r'. r' \<noteq> r \<longrightarrow> heap (resolveImg k imgData st) ! r' = heap st ! r'"
proof (cases "k < length (pending st) \<and> truthy_opt imgData")
  case False
  then show ?thesis
    by (auto simp: resolveImg_def Let_def)
next
  case True
  show ?thesis
  proof (cases "at_index (fetch_cards (pending st ! k)) (fetch_index (pending st ! k))")
    case None
    with True show ?thesis
      by (simp add: resolveImg_def Let_def)
  next
    case (Some r)
    with True have "\<forall>r'. r' \<noteq> r \<longrightarrow> heap (resolveImg k imgData st) ! r' = heap st ! r'"
      by (simp add: resolveImg_def Let_def)
    then show ?thesis ..
  qed
qed

text \<open>
  C9 fails on the code. Two cards are generated, which sends a request for the first
  card; Next and Next again lead back to the first card, which still has no image, so a
  second request for it is sent. The first request completes and sets the image; then
  the second one completes and overwrites it.
\<close>

theorem loadImg_overwrites_generatedImage:
  "imageAt
     (flash_run [Generate (Inr twoCards), NextCard, NextCard, Resolve 0 (Some ''data:A'')]
        (flashInit ''Cells'')) 0 = Some ''data:A''
   \<and> imageAt
     (flash_run [Generate (Inr twoCards), NextCard, NextCard, Resolve 0 (Some ''data:A''),
                 Resolve 1 (Some ''data:B'')]
        (flashInit ''Cells'')) 0 = Some ''data:B''"
  by (simp add: flash_run_def imageAt_def handleGenerate_def flashInit_def twoCards_def
      truthy_def imageEffect_def loadImg_def resolveImg_def navigated_def handleNext_def
      Let_def upt_rec)

end
